theory Spec2Isabelle
  imports Complex_Main "HOL-Library.Char_ord" "HOL-Library.List_Lexorder" "HOL-Library.Multiset"
begin

section \<open>Data model (src/types.ts)\<close>

text \<open>
  The interfaces of \<^verbatim>\<open>types.ts\<close> as records. Both \<^verbatim>\<open>User\<close> and \<^verbatim>\<open>BreedResult\<close> have
  a field \<^verbatim>\<open>id\<close>; it is \<open>id_user\<close> and \<open>id_scan\<close> here (\<open>id\<close> is HOL's identity).
  An optional field \<^verbatim>\<open>f?: T\<close> is a \<open>T option\<close>. A JavaScript \<^verbatim>\<open>number\<close> is only ever
  stored and read back by the code below, never computed with, and is a \<open>real\<close>.
\<close>

datatype UserRole = USER | ADMIN

record User =
  id_user :: string
  name :: string
  email :: string
  role :: UserRole
  createdAt :: string

datatype Severity = Low | Medium | High

record HealthIssue =
  issue :: string
  severity :: Severity
  issue_description :: string
  recommendedAction :: string

record HealthAnalysisResponse =
  potentialIssues :: "HealthIssue list"
  summary :: string
  isHealthy :: bool

record BreedResult =
  id_scan :: string
  userId :: string
  imageUrl :: string
  animalType :: string
  breedName :: string
  confidence :: real
  description :: string
  similarBreeds :: "string list"
  timestamp :: string
  healthAnalysis :: "HealthAnalysisResponse option"
  price :: real
  uses :: "string list"
  lifeExpectancy :: string
  dietRoutine :: string
  exercisePlan :: string
  isPurchased :: "bool option"

section \<open>The embedded object store (IndexedDB, as src/services/db.ts uses it)\<close>

text \<open>
  \<^verbatim>\<open>AnimalDB.init\<close> creates two object stores with the in-line key path \<^verbatim>\<open>id\<close>. An object
  store holds its records in ascending key order with one record per key, so a store is
  the list of its records in that order and the key of a record is read off the record.
  \<^verbatim>\<open>put\<close> replaces the record with the same key or inserts the new one at its place;
  \<^verbatim>\<open>delete\<close> of a key that is not there succeeds; \<^verbatim>\<open>get\<close> on a store or an index answers
  the first record with that key and \<^verbatim>\<open>getAll\<close> on an index all of them, in the order of
  their primary keys. Keys are compared as the byte strings of HOL. Failures of the
  environment (quota, a blocked open, corruption) are outside the model: a read always
  answers, and a write fails only where the schema makes it fail.
\<close>

fun os_put :: "('a \<Rightarrow> string) \<Rightarrow> 'a \<Rightarrow> 'a list \<Rightarrow> 'a list" where
  "os_put key v [] = [v]"
| "os_put key v (x # xs) =
     (if key v < key x then v # x # xs
      else if key v = key x then v # xs
      else x # os_put key v xs)"

definition os_get :: "('a \<Rightarrow> string) \<Rightarrow> string \<Rightarrow> 'a list \<Rightarrow> 'a option" where
  "os_get key k xs = find (\<lambda>x. key x = k) xs"

definition os_delete :: "('a \<Rightarrow> string) \<Rightarrow> string \<Rightarrow> 'a list \<Rightarrow> 'a list" where
  "os_delete key k xs = filter (\<lambda>x. key x \<noteq> k) xs"

definition index_get :: "('a \<Rightarrow> string) \<Rightarrow> string \<Rightarrow> 'a list \<Rightarrow> 'a option" where
  "index_get ix k xs = find (\<lambda>x. ix x = k) xs"

definition index_getAll :: "('a \<Rightarrow> string) \<Rightarrow> string \<Rightarrow> 'a list \<Rightarrow> 'a list" where
  "index_getAll ix k xs = filter (\<lambda>x. ix x = k) xs"

text \<open>
  A unique index refuses a \<^verbatim>\<open>put\<close> when a record with another primary key already holds
  the same index key; the request then fails with a \<^verbatim>\<open>ConstraintError\<close> and the
  transaction leaves the store as it was.
\<close>

definition unique_violation :: "('a \<Rightarrow> string) \<Rightarrow> ('a \<Rightarrow> string) \<Rightarrow> 'a \<Rightarrow> 'a list \<Rightarrow> bool" where
  "unique_violation key ix v xs = list_ex (\<lambda>x. ix x = ix v \<and> key x \<noteq> key v) xs"

datatype error = ConstraintError | Error string

record database =
  users :: "User list"
  scans :: "BreedResult list"

definition empty_db :: database where
  "empty_db = \<lparr>users = [], scans = []\<rparr>"

subsection \<open>User operations\<close>

definition saveUser :: "User \<Rightarrow> database \<Rightarrow> error + database" where
  "saveUser user d =
     (if unique_violation id_user email user (users d) then Inl ConstraintError
      else Inr (d\<lparr>users := os_put id_user user (users d)\<rparr>))"

definition getUser :: "database \<Rightarrow> string \<Rightarrow> User option" where
  "getUser d k = os_get id_user k (users d)"

definition getUserByEmail :: "database \<Rightarrow> string \<Rightarrow> User option" where
  "getUserByEmail d e = index_get email e (users d)"

definition getAllUsers :: "database \<Rightarrow> User list" where
  "getAllUsers d = users d"

subsection \<open>Scan operations\<close>

text \<open>
  \<^verbatim>\<open>new Date(s).getTime()\<close> is a function of the platform: it is the parameter \<open>parse\<close>,
  which answers the milliseconds since the epoch, or \<open>None\<close> for the \<^verbatim>\<open>NaN\<close> of a string
  that is no date. The comparator of the source is the difference of two such times
  (its sign is that of the integer difference), and \<^verbatim>\<open>NaN\<close> when one of them is \<^verbatim>\<open>NaN\<close>.
\<close>

definition compareFn :: "(string \<Rightarrow> int option) \<Rightarrow> BreedResult \<Rightarrow> BreedResult \<Rightarrow> int option" where
  "compareFn parse a b =
     (case parse (timestamp b) of
        None \<Rightarrow> None
      | Some tb \<Rightarrow> (case parse (timestamp a) of None \<Rightarrow> None | Some ta \<Rightarrow> Some (tb - ta)))"

text \<open>
  \<^verbatim>\<open>Array.prototype.sort\<close> is stable, reads a \<^verbatim>\<open>NaN\<close> of the comparator as \<open>0\<close>, and puts
  \<open>a\<close> after \<open>b\<close> when the comparator is positive on \<open>(a, b)\<close>: a stable insertion sort.
  Where every compared timestamp parses, the comparator is consistent and every stable
  sort gives this order. Where one does not, the language leaves the order to the engine,
  and the insertion sort stands for the code only as a permutation of its input; nothing
  below is stated about the order there.
\<close>

definition comes_after :: "('a \<Rightarrow> 'a \<Rightarrow> int option) \<Rightarrow> 'a \<Rightarrow> 'a \<Rightarrow> bool" where
  "comes_after cmp a b = (case cmp a b of None \<Rightarrow> False | Some v \<Rightarrow> 0 < v)"

fun insert_by :: "('a \<Rightarrow> 'a \<Rightarrow> int option) \<Rightarrow> 'a \<Rightarrow> 'a list \<Rightarrow> 'a list" where
  "insert_by cmp a [] = [a]"
| "insert_by cmp a (b # bs) =
     (if comes_after cmp a b then b # insert_by cmp a bs else a # b # bs)"

definition array_sort :: "('a \<Rightarrow> 'a \<Rightarrow> int option) \<Rightarrow> 'a list \<Rightarrow> 'a list" where
  "array_sort cmp xs = foldr (insert_by cmp) xs []"

definition saveScan :: "BreedResult \<Rightarrow> database \<Rightarrow> error + database" where
  "saveScan scan d = Inr (d\<lparr>scans := os_put id_scan scan (scans d)\<rparr>)"

definition getUserScans :: "(string \<Rightarrow> int option) \<Rightarrow> database \<Rightarrow> string \<Rightarrow> BreedResult list" where
  "getUserScans parse d uid = array_sort (compareFn parse) (index_getAll userId uid (scans d))"

definition getAllScans :: "(string \<Rightarrow> int option) \<Rightarrow> database \<Rightarrow> BreedResult list" where
  "getAllScans parse d = array_sort (compareFn parse) (scans d)"

definition deleteScan :: "string \<Rightarrow> database \<Rightarrow> error + database" where
  "deleteScan k d = Inr (d\<lparr>scans := os_delete id_scan k (scans d)\<rparr>)"

subsection \<open>Seeding\<close>

definition adminEmail :: string where
  "adminEmail = ''admin@breedfinder.com''"

text \<open>\<open>now\<close> is the value of \<^verbatim>\<open>new Date().toISOString()\<close> at the call.\<close>

definition adminRecord :: "string \<Rightarrow> User" where
  "adminRecord now =
     \<lparr>id_user = ''admin-1'', name = ''System Administrator'', email = adminEmail,
      role = ADMIN, createdAt = now\<rparr>"

definition seedAdmin :: "string \<Rightarrow> database \<Rightarrow> error + database" where
  "seedAdmin now d =
     (case getUserByEmail d adminEmail of
        None \<Rightarrow> saveUser (adminRecord now) d
      | Some existing \<Rightarrow> Inr d)"

text \<open>One call of \<^verbatim>\<open>seedAdmin\<close> for each clock reading of the list, stopping at a failure.\<close>

fun seedAdmin_calls :: "string list \<Rightarrow> database \<Rightarrow> error + database" where
  "seedAdmin_calls [] d = Inr d"
| "seedAdmin_calls (now # nows) d =
     (case seedAdmin now d of Inl e \<Rightarrow> Inl e | Inr d' \<Rightarrow> seedAdmin_calls nows d')"

text \<open>
  What the schema of \<^verbatim>\<open>init\<close> maintains: one record per key, in key order, and in
  \<^verbatim>\<open>users\<close> one record per email.
\<close>

definition users_ok :: "User list \<Rightarrow> bool" where
  "users_ok us = (sorted_wrt (<) (map id_user us) \<and> distinct (map email us))"

definition scans_ok :: "BreedResult list \<Rightarrow> bool" where
  "scans_ok ss = sorted_wrt (<) (map id_scan ss)"

definition db_ok :: "database \<Rightarrow> bool" where
  "db_ok d = (users_ok (users d) \<and> scans_ok (scans d))"

section \<open>Session and view controller (src/App.tsx)\<close>

datatype View = landing | login | signup | dashboard | admin

text \<open>
  The state of the process: the store, the slot \<^verbatim>\<open>animal_id_uid\<close> of \<^verbatim>\<open>localStorage\<close>
  (\<open>None\<close> when \<^verbatim>\<open>getItem\<close> answers \<^verbatim>\<open>null\<close>), and the three state variables of \<^verbatim>\<open>App\<close>.
\<close>

record World =
  db :: database
  animal_id_uid :: "string option"
  currentUser :: "User option"
  view :: View
  isInitializing :: bool

definition boot :: "database \<Rightarrow> string option \<Rightarrow> World" where
  "boot d p =
     \<lparr>db = d, animal_id_uid = p, currentUser = None, view = landing, isInitializing = True\<rparr>"

definition roleView :: "User \<Rightarrow> View" where
  "roleView user = (if role user = ADMIN then admin else dashboard)"

text \<open>
  \<^verbatim>\<open>initApp\<close>: the \<^verbatim>\<open>if (storedUserId)\<close> of the source is false for \<^verbatim>\<open>null\<close> and for the
  empty string; a failure of the seeding is caught and logged; \<^verbatim>\<open>finally\<close> ends the
  initialisation in every case.
\<close>

definition initApp :: "string \<Rightarrow> World \<Rightarrow> World" where
  "initApp now w =
     (case seedAdmin now (db w) of
        Inl err \<Rightarrow> w\<lparr>isInitializing := False\<rparr>
      | Inr d \<Rightarrow>
          (case animal_id_uid w of
             None \<Rightarrow> w\<lparr>db := d, isInitializing := False\<rparr>
           | Some storedUserId \<Rightarrow>
               (if storedUserId = [] then w\<lparr>db := d, isInitializing := False\<rparr>
                else (case getUser d storedUserId of
                        None \<Rightarrow> w\<lparr>db := d, isInitializing := False\<rparr>
                      | Some user \<Rightarrow>
                          w\<lparr>db := d, currentUser := Some user, view := roleView user,
                            isInitializing := False\<rparr>))))"

definition handleLogin :: "User \<Rightarrow> World \<Rightarrow> World" where
  "handleLogin user w =
     w\<lparr>currentUser := Some user, animal_id_uid := Some (id_user user), view := roleView user\<rparr>"

definition handleLogout :: "World \<Rightarrow> World" where
  "handleLogout w = w\<lparr>currentUser := None, animal_id_uid := None, view := landing\<rparr>"

text \<open>
  What \<^verbatim>\<open>App\<close> shows. \<^verbatim>\<open>Dashboard\<close> is handed \<^verbatim>\<open>currentUser!\<close> in the \<^verbatim>\<open>admin\<close> case, an
  assertion of the type checker only, so its argument can be absent at run time.
\<close>

datatype Screen =
    Spinner
  | LandingPage
  | Login
  | Signup
  | Dashboard "User option"
  | AdminDashboard User

definition renderContent :: "World \<Rightarrow> Screen" where
  "renderContent w =
     (case view w of
        landing \<Rightarrow> LandingPage
      | login \<Rightarrow> Login
      | signup \<Rightarrow> Signup
      | dashboard \<Rightarrow> (case currentUser w of Some user \<Rightarrow> Dashboard (Some user) | None \<Rightarrow> Login)
      | admin \<Rightarrow>
          (case currentUser w of
             Some user \<Rightarrow> (if role user = ADMIN then AdminDashboard user else Dashboard (Some user))
           | None \<Rightarrow> Dashboard None))"

definition render :: "World \<Rightarrow> Screen" where
  "render w = (if isInitializing w then Spinner else renderContent w)"

subsection \<open>The forms (components Login and Signup)\<close>

text \<open>
  \<^verbatim>\<open>Login.handleSubmit\<close>: the new state and the error message shown (\<open>[]\<close> for none).
\<close>

definition lookupAndLogin :: "string \<Rightarrow> World \<Rightarrow> World \<times> string" where
  "lookupAndLogin e w =
     (case getUserByEmail (db w) e of
        Some foundUser \<Rightarrow> (handleLogin foundUser w, [])
      | None \<Rightarrow>
          (w, ''Invalid email or password. Use 'admin@breedfinder.com' / 'admin123' for testing admin.''))"

definition Login_handleSubmit :: "string \<Rightarrow> string \<Rightarrow> World \<Rightarrow> World \<times> string" where
  "Login_handleSubmit e password w =
     (if e = ''admin@breedfinder.com'' \<and> password = ''admin123''
      then (case getUserByEmail (db w) ''admin@breedfinder.com'' of
              Some adminUser \<Rightarrow> (handleLogin adminUser w, [])
            | None \<Rightarrow> lookupAndLogin e w)
      else lookupAndLogin e w)"

text \<open>
  \<^verbatim>\<open>Signup.handleSubmit\<close>; \<open>newId\<close> is the random id and \<open>now\<close> the clock reading.
\<close>

definition Signup_handleSubmit ::
  "string \<Rightarrow> string \<Rightarrow> string \<Rightarrow> string \<Rightarrow> string \<Rightarrow> World \<Rightarrow> World \<times> string" where
  "Signup_handleSubmit newId now nm e password w =
     (if length password < 6 then (w, ''Password must be at least 6 characters long.'')
      else (case getUserByEmail (db w) e of
              Some existing \<Rightarrow> (w, ''An account with this email already exists.'')
            | None \<Rightarrow>
                (let newUser = \<lparr>id_user = newId, name = nm, email = e, role = USER, createdAt = now\<rparr>
                 in case saveUser newUser (db w) of
                      Inl err \<Rightarrow> (w, ''An error occurred during signup.'')
                    | Inr d \<Rightarrow> (handleLogin newUser (w\<lparr>db := d\<rparr>), []))))"

subsection \<open>The transitions a user can trigger\<close>

text \<open>
  One event for each control of \<^verbatim>\<open>Navigation\<close>, \<^verbatim>\<open>LandingPage\<close>, \<^verbatim>\<open>Login\<close> and \<^verbatim>\<open>Signup\<close>, and
  the two store operations the dashboards issue. A control fires only where it is shown.
\<close>

datatype Event =
    NavLogo
  | NavDashboard
  | NavLogout
  | NavLogIn
  | NavSignUp
  | GetStarted
  | LoginSubmit string string
  | LoginSwitchToSignup
  | LoginBack
  | SignupSubmit string string string string string
  | SignupSwitchToLogin
  | SignupBack
  | DashboardSaveScan BreedResult
  | DashboardDeleteScan string

definition setView :: "View \<Rightarrow> World \<Rightarrow> World" where
  "setView v w = w\<lparr>view := v\<rparr>"

definition saveScanToDB :: "BreedResult \<Rightarrow> database \<Rightarrow> database" where
  "saveScanToDB result d = (case saveScan result d of Inl err \<Rightarrow> d | Inr d' \<Rightarrow> d')"

definition showsDashboard :: "World \<Rightarrow> bool" where
  "showsDashboard w = (case renderContent w of Dashboard u \<Rightarrow> True | _ \<Rightarrow> False)"

definition showsAnyDashboard :: "World \<Rightarrow> bool" where
  "showsAnyDashboard w =
     (case renderContent w of Dashboard u \<Rightarrow> True | AdminDashboard u \<Rightarrow> True | _ \<Rightarrow> False)"

definition if_shown :: "bool \<Rightarrow> World \<Rightarrow> World option" where
  "if_shown shown w = (if shown then Some w else None)"

fun fire_event :: "Event \<Rightarrow> World \<Rightarrow> World option" where
  "fire_event NavLogo w = Some (setView landing w)"
| "fire_event NavDashboard w =
     (case currentUser w of Some user \<Rightarrow> Some (setView (roleView user) w) | None \<Rightarrow> None)"
| "fire_event NavLogout w = if_shown (currentUser w \<noteq> None) (handleLogout w)"
| "fire_event NavLogIn w = if_shown (currentUser w = None) (setView login w)"
| "fire_event NavSignUp w = if_shown (currentUser w = None) (setView signup w)"
| "fire_event GetStarted w = if_shown (renderContent w = LandingPage) (setView login w)"
| "fire_event (LoginSubmit e password) w =
     if_shown (renderContent w = Login) (fst (Login_handleSubmit e password w))"
| "fire_event LoginSwitchToSignup w = if_shown (renderContent w = Login) (setView signup w)"
| "fire_event LoginBack w = if_shown (renderContent w = Login) (setView landing w)"
| "fire_event (SignupSubmit newId now nm e password) w =
     if_shown (renderContent w = Signup) (fst (Signup_handleSubmit newId now nm e password w))"
| "fire_event SignupSwitchToLogin w = if_shown (renderContent w = Signup) (setView login w)"
| "fire_event SignupBack w = if_shown (renderContent w = Signup) (setView landing w)"
| "fire_event (DashboardSaveScan scan) w =
     if_shown (showsDashboard w) (w\<lparr>db := saveScanToDB scan (db w)\<rparr>)"
| "fire_event (DashboardDeleteScan k) w =
     if_shown (showsAnyDashboard w)
       (w\<lparr>db := (case deleteScan k (db w) of Inl err \<Rightarrow> db w | Inr d \<Rightarrow> d)\<rparr>)"

definition fire :: "Event \<Rightarrow> World \<Rightarrow> World option" where
  "fire ev w = (if isInitializing w then None else fire_event ev w)"

inductive reachable :: "World \<Rightarrow> bool" where
  booting: "reachable (boot d p)"
| initialised: "reachable (initApp now (boot d p))"
| step: "reachable w \<Longrightarrow> fire ev w = Some w' \<Longrightarrow> reachable w'"

text \<open>The two screens that need an identity are selected only when there is one.\<close>

definition session_ok :: "World \<Rightarrow> bool" where
  "session_ok w = (view w = dashboard \<or> view w = admin \<longrightarrow> currentUser w \<noteq> None)"

section \<open>Dashboard (src/components/Dashboard.tsx)\<close>

record DashboardState =
  selectedImage :: "string option"
  currentResult :: "BreedResult option"
  healthAnalysis_shown :: "HealthAnalysisResponse option"
  errorMsg :: "string option"
  isAnalyzingHealth :: bool
  shoppingCart :: "BreedResult list"

text \<open>
  \<^verbatim>\<open>handleHealthCheck\<close>; \<open>detect\<close> is the call \<^verbatim>\<open>detectAnimalDiseases\<close>, whose outcome the
  external model decides. \<^verbatim>\<open>!selectedImage\<close> holds for \<^verbatim>\<open>null\<close> and for the empty string.
\<close>

definition handleHealthCheck ::
  "(string \<Rightarrow> string \<Rightarrow> error + HealthAnalysisResponse) \<Rightarrow> DashboardState \<times> database
     \<Rightarrow> DashboardState \<times> database" where
  "handleHealthCheck detect sd =
     (case sd of (s, d) \<Rightarrow>
        (case selectedImage s of
           None \<Rightarrow> (s, d)
         | Some img \<Rightarrow>
             (if img = [] then (s, d)
              else (case currentResult s of
                      None \<Rightarrow> (s, d)
                    | Some cur \<Rightarrow>
                        (case detect img (animalType cur) of
                           Inl err \<Rightarrow>
                             (s\<lparr>errorMsg := Some ''Health analysis failed.'',
                                isAnalyzingHealth := False\<rparr>, d)
                         | Inr analysis \<Rightarrow>
                             (let updatedResult = cur\<lparr>healthAnalysis := Some analysis\<rparr>
                              in (s\<lparr>healthAnalysis_shown := Some analysis,
                                    currentResult := Some updatedResult,
                                    isAnalyzingHealth := False\<rparr>,
                                  saveScanToDB updatedResult d)))))))"

definition handlePurchase :: "DashboardState \<times> database \<Rightarrow> DashboardState \<times> database" where
  "handlePurchase sd =
     (case sd of (s, d) \<Rightarrow>
        (case currentResult s of
           None \<Rightarrow> (s, d)
         | Some cur \<Rightarrow>
             (let purchased = cur\<lparr>isPurchased := Some True\<rparr>
              in (s\<lparr>shoppingCart := purchased # shoppingCart s, currentResult := Some purchased\<rparr>,
                  saveScanToDB purchased d))))"

section \<open>Speech synthesis (src/services/geminiService.ts)\<close>

text \<open>
  The part of the response of the hosted model that \<^verbatim>\<open>generateBreedAudio\<close> reads; every
  property on the path is optional.
\<close>

record Blob =
  data :: "string option"

record Part =
  inlineData :: "Blob option"
  text_part :: "string option"

record Content =
  parts :: "Part list option"

record Candidate =
  content :: "Content option"

record GenerateContentResponse =
  candidates :: "Candidate list option"

record SpeechRequest =
  model :: string
  contents :: string
  responseModalities :: "string list"
  voiceName :: string

definition speechRequest :: "string \<Rightarrow> SpeechRequest" where
  "speechRequest txt =
     \<lparr>model = ''gemini-2.5-flash-preview-tts'', contents = txt,
      responseModalities = [''AUDIO''], voiceName = ''Kore''\<rparr>"

text \<open>\<^verbatim>\<open>xs?.[0]\<close>: the first element, absent when the array is absent or empty.\<close>

definition first_of :: "'a list option \<Rightarrow> 'a option" where
  "first_of xs = (case xs of None \<Rightarrow> None | Some [] \<Rightarrow> None | Some (x # rest) \<Rightarrow> Some x)"

definition audioData :: "GenerateContentResponse \<Rightarrow> string option" where
  "audioData response =
     (case first_of (candidates response) of
        None \<Rightarrow> None
      | Some c \<Rightarrow>
          (case content c of
             None \<Rightarrow> None
           | Some ct \<Rightarrow>
               (case first_of (parts ct) of
                  None \<Rightarrow> None
                | Some p \<Rightarrow> (case inlineData p of None \<Rightarrow> None | Some b \<Rightarrow> data b))))"

text \<open>
  \<open>api\<close> is \<^verbatim>\<open>ai.models.generateContent\<close>; its rejection propagates to the caller.
  \<^verbatim>\<open>x || ''\<close> is the empty string when \<open>x\<close> is absent or empty.
\<close>

definition generateBreedAudio ::
  "(SpeechRequest \<Rightarrow> error + GenerateContentResponse) \<Rightarrow> string \<Rightarrow> error + string" where
  "generateBreedAudio api txt =
     (case api (speechRequest txt) of
        Inl err \<Rightarrow> Inl err
      | Inr response \<Rightarrow> Inr (case audioData response of None \<Rightarrow> [] | Some payload \<Rightarrow> payload))"

text \<open>
  Every payload a response carries, in any part of any candidate: what "the response
  contains an audio data part" means.
\<close>

definition partPayloads :: "Part \<Rightarrow> string list" where
  "partPayloads p =
     (case inlineData p of None \<Rightarrow> [] | Some b \<Rightarrow> (case data b of None \<Rightarrow> [] | Some s \<Rightarrow> [s]))"

definition candidatePayloads :: "Candidate \<Rightarrow> string list" where
  "candidatePayloads c =
     (case content c of
        None \<Rightarrow> []
      | Some ct \<Rightarrow> (case parts ct of None \<Rightarrow> [] | Some ps \<Rightarrow> concat (map partPayloads ps)))"

definition allPayloads :: "GenerateContentResponse \<Rightarrow> string list" where
  "allPayloads response =
     (case candidates response of None \<Rightarrow> [] | Some cs \<Rightarrow> concat (map candidatePayloads cs))"

text \<open>
  Newest first: each record parses to a time that is not before the time of any record
  after it.
\<close>

definition not_older :: "(string \<Rightarrow> int option) \<Rightarrow> BreedResult \<Rightarrow> BreedResult \<Rightarrow> bool" where
  "not_older parse a b =
     (case parse (timestamp a) of
        None \<Rightarrow> False
      | Some ta \<Rightarrow> (case parse (timestamp b) of None \<Rightarrow> False | Some tb \<Rightarrow> tb \<le> ta))"

definition newest_first :: "(string \<Rightarrow> int option) \<Rightarrow> BreedResult list \<Rightarrow> bool" where
  "newest_first parse xs = sorted_wrt (not_older parse) xs"

text \<open>
  The payloads of the one part the operation reads, the first part of the first
  candidate: none or one.
\<close>

definition firstPartPayloads :: "GenerateContentResponse \<Rightarrow> string list" where
  "firstPartPayloads response =
     (case candidates response of
        None \<Rightarrow> []
      | Some cs \<Rightarrow>
          (case cs of
             [] \<Rightarrow> []
           | c # rest \<Rightarrow>
               (case content c of
                  None \<Rightarrow> []
                | Some ct \<Rightarrow>
                    (case parts ct of
                       None \<Rightarrow> []
                     | Some ps \<Rightarrow> (case ps of [] \<Rightarrow> [] | p # others \<Rightarrow> partPayloads p)))))"

section \<open>Sample records\<close>

text \<open>Concrete records on which the operations are run below.\<close>

definition sample_user :: "string \<Rightarrow> string \<Rightarrow> UserRole \<Rightarrow> User" where
  "sample_user k e r = \<lparr>id_user = k, name = ''Sam'', email = e, role = r, createdAt = ''2024-01-01T00:00:00.000Z''\<rparr>"

definition sample_scan :: "string \<Rightarrow> string \<Rightarrow> string \<Rightarrow> BreedResult" where
  "sample_scan k owner ts =
     \<lparr>id_scan = k, userId = owner, imageUrl = ''data:image/jpeg;base64,AAAA'',
      animalType = ''Dog'', breedName = ''Beagle'', confidence = 93, description = ''A hound'',
      similarBreeds = [''Harrier'', ''Foxhound''], timestamp = ts, healthAnalysis = None,
      price = 800, uses = [''companionship''], lifeExpectancy = ''10-15 years'',
      dietRoutine = ''Two meals'', exercisePlan = ''One hour'', isPurchased = None\<rparr>"

text \<open>
  A stand-in for the date parser of the platform on two ISO-8601 strings, and a health
  analysis.
\<close>

definition sample_parse :: "string \<Rightarrow> int option" where
  "sample_parse s =
     (if s = ''2024-01-01T00:00:00.000Z'' then Some 1704067200000
      else if s = ''2024-01-02T00:00:00.000Z'' then Some 1704153600000
      else None)"

definition sample_analysis :: HealthAnalysisResponse where
  "sample_analysis =
     \<lparr>potentialIssues =
        [\<lparr>issue = ''Tick'', severity = Low, issue_description = ''One tick on the left ear'',
          recommendedAction = ''Remove it''\<rparr>],
      summary = ''Healthy apart from one tick'', isHealthy = False\<rparr>"

text \<open>A response with one candidate that holds the given parts.\<close>

definition sample_response :: "Part list \<Rightarrow> GenerateContentResponse" where
  "sample_response ps = \<lparr>candidates = Some [\<lparr>content = Some \<lparr>parts = Some ps\<rparr>\<rparr>]\<rparr>"

section \<open>Properties of the object store\<close>

lemma os_put_mem: "v \<in> set (os_put key v xs)"
  by (induction xs) auto

lemma set_os_put_subset: "set (os_put key v xs) \<subseteq> insert v (set xs)"
  by (induction xs) auto

lemma set_os_put:
  "sorted_wrt (<) (map key xs) \<Longrightarrow>
   set (os_put key v xs) = insert v {x \<in> set xs. key x \<noteq> key v}"
  by (induction xs) (auto simp: )

lemma sorted_os_put:
  "sorted_wrt (<) (map key xs) \<Longrightarrow> sorted_wrt (<) (map key (os_put key v xs))"
proof (induction xs)
  case Nil
  then show ?case by simp
next
  case (Cons x xs)
  have sub: "set (os_put key v xs) \<subseteq> insert v (set xs)" by (rule set_os_put_subset)
  from Cons show ?case using sub by (auto simp: )
qed

lemma find_os_put_same: "find (\<lambda>x. key x = key v) (os_put key v xs) = Some v"
  by (induction xs) auto

lemma find_os_put_other:
  "k \<noteq> key v \<Longrightarrow> find (\<lambda>x. key x = k) (os_put key v xs) = find (\<lambda>x. key x = k) xs"
  by (induction xs) auto

lemma os_put_before_all:
  "\<forall>x\<in>set ys. key v < key x \<Longrightarrow> os_put key v ys = v # ys"
  by (cases ys) auto

lemma filter_os_put_in:
  "sorted_wrt (<) (map key xs) \<Longrightarrow> P v \<Longrightarrow>
   filter P (os_put key v xs) = os_put key v (filter P xs)"
proof (induction xs)
  case Nil
  then show ?case by simp
next
  case (Cons x xs)
  have later: "key v \<le> key x \<Longrightarrow> os_put key v (filter P xs) = v # filter P xs"
    using Cons.prems(1) by (intro os_put_before_all) auto
  from Cons later show ?case by auto
qed

lemma filter_os_put_none:
  "\<forall>x\<in>set xs. \<not> P x \<Longrightarrow> P v \<Longrightarrow> filter P (os_put key v xs) = [v]"
  by (induction xs) auto

lemma unique_violation_iff:
  "unique_violation key ix v xs \<longleftrightarrow> (\<exists>x\<in>set xs. ix x = ix v \<and> key x \<noteq> key v)"
  by (simp add: unique_violation_def list_ex_iff)

lemma distinct_index_os_put:
  "sorted_wrt (<) (map key xs) \<Longrightarrow> distinct (map ix xs) \<Longrightarrow>
   \<not> unique_violation key ix v xs \<Longrightarrow> distinct (map ix (os_put key v xs))"
proof (induction xs)
  case Nil
  then show ?case by simp
next
  case (Cons x xs)
  have sub: "set (os_put key v xs) \<subseteq> insert v (set xs)" by (rule set_os_put_subset)
  have later: "\<forall>y\<in>set xs. key x < key y" using Cons.prems(1) by simp
  have same: "\<forall>y\<in>set (x # xs). ix y = ix v \<longrightarrow> key y = key v"
    using Cons.prems(3) unfolding unique_violation_iff by blast
  have nv: "\<not> unique_violation key ix v xs"
    using same unfolding unique_violation_iff by simp
  have ih: "distinct (map ix (os_put key v xs))"
    using Cons.IH Cons.prems(1,2) nv by simp
  have dx: "ix x \<notin> ix ` set xs" and dxs: "distinct (map ix xs)"
    using Cons.prems(2) by simp_all
  show ?case
  proof (cases "key v < key x")
    case True
    have "ix v \<noteq> ix y" if "y \<in> set (x # xs)" for y
    proof
      assume "ix v = ix y"
      then have "key y = key v" using same that by auto
      moreover have "key x \<le> key y" using that later by auto
      ultimately show False using True by simp
    qed
    then have "ix v \<notin> ix ` set (x # xs)" by blast
    then show ?thesis using True dx dxs by simp
  next
    case False
    note nless = this
    show ?thesis
    proof (cases "key v = key x")
      case True
      have "ix v \<noteq> ix y" if "y \<in> set xs" for y
      proof
        assume "ix v = ix y"
        then have "key y = key v" using same that by auto
        moreover have "key x < key y" using that later by simp
        ultimately show False using True by simp
      qed
      then have "ix v \<notin> ix ` set xs" by blast
      then show ?thesis using True dxs by simp
    next
      case False
      have "ix x \<noteq> ix v" using same False by auto
      then have "ix x \<notin> ix ` set (os_put key v xs)" using sub dx by auto
      then show ?thesis using nless False ih by simp
    qed
  qed
qed

lemma find_unique_filter:
  "distinct (map f xs) \<Longrightarrow> find (\<lambda>x. f x = k) xs = Some e \<Longrightarrow> filter (\<lambda>x. f x = k) xs = [e]"
proof (induction xs)
  case Nil
  then show ?case by simp
next
  case (Cons x xs)
  show ?case
  proof (cases "f x = k")
    case True
    then have "x = e" using Cons.prems(2) by simp
    moreover have "filter (\<lambda>y. f y = k) xs = []"
      using Cons.prems(1) True by (auto simp: filter_empty_conv image_iff)
    ultimately show ?thesis using True by simp
  next
    case False
    then show ?thesis using Cons by simp
  qed
qed

lemma find_member_unique:
  "distinct (map f xs) \<Longrightarrow> e \<in> set xs \<Longrightarrow> find (\<lambda>x. f x = f e) xs = Some e"
  by (induction xs) (auto simp: image_iff)

lemma users_ok_saveUser:
  "users_ok (users d) \<Longrightarrow> saveUser u d = Inr d' \<Longrightarrow> users_ok (users d') \<and> scans d' = scans d"
  by (auto simp: saveUser_def users_ok_def sorted_os_put distinct_index_os_put split: if_splits)

lemma db_ok_empty: "db_ok empty_db"
  by (simp add: db_ok_def empty_db_def users_ok_def scans_ok_def)

lemma db_ok_saveUser: "db_ok d \<Longrightarrow> saveUser u d = Inr d' \<Longrightarrow> db_ok d'"
  using users_ok_saveUser [of d u d'] by (simp add: db_ok_def)

lemma db_ok_saveScan: "db_ok d \<Longrightarrow> saveScan s d = Inr d' \<Longrightarrow> db_ok d'"
  by (auto simp: db_ok_def saveScan_def scans_ok_def sorted_os_put)

lemma sorted_os_delete:
  "sorted_wrt (<) (map key xs) \<Longrightarrow> sorted_wrt (<) (map key (os_delete key k xs))"
  by (induction xs) (auto simp: os_delete_def)

lemma db_ok_deleteScan: "db_ok d \<Longrightarrow> deleteScan k d = Inr d' \<Longrightarrow> db_ok d'"
  by (auto simp: db_ok_def deleteScan_def scans_ok_def sorted_os_delete)

lemma seedAdmin_cases:
  "seedAdmin now d =
     (if \<exists>x\<in>set (users d). email x = adminEmail then Inr d
      else Inr (d\<lparr>users := os_put id_user (adminRecord now) (users d)\<rparr>))"
proof (cases "getUserByEmail d adminEmail")
  case None
  then have none: "\<forall>x\<in>set (users d). email x \<noteq> adminEmail"
    by (simp add: getUserByEmail_def index_get_def find_None_iff)
  then have "\<not> unique_violation id_user email (adminRecord now) (users d)"
    by (simp add: unique_violation_iff adminRecord_def)
  then show ?thesis using None none by (auto simp: seedAdmin_def saveUser_def)
next
  case (Some e)
  then have "\<exists>x\<in>set (users d). email x = adminEmail"
    by (auto simp: getUserByEmail_def index_get_def find_Some_iff)
  then show ?thesis using Some by (simp add: seedAdmin_def)
qed

lemma seedAdmin_has_admin:
  assumes "seedAdmin now d = Inr d1"
  shows "\<exists>x\<in>set (users d1). email x = adminEmail"
proof (cases "\<exists>x\<in>set (users d). email x = adminEmail")
  case True
  then show ?thesis using assms by (simp add: seedAdmin_cases)
next
  case False
  with assms have "users d1 = os_put id_user (adminRecord now) (users d)"
    by (auto simp: seedAdmin_cases)
  then have "adminRecord now \<in> set (users d1)" by (simp add: os_put_mem)
  moreover have "email (adminRecord now) = adminEmail" by (simp add: adminRecord_def)
  ultimately show ?thesis by blast
qed

lemma seedAdmin_fixed:
  "\<exists>x\<in>set (users d1). email x = adminEmail \<Longrightarrow> seedAdmin now d1 = Inr d1"
  by (simp add: seedAdmin_cases)

lemma seedAdmin_calls_fixed:
  "\<exists>x\<in>set (users d1). email x = adminEmail \<Longrightarrow> seedAdmin_calls nows d1 = Inr d1"
  by (induction nows) (simp_all add: seedAdmin_fixed)

lemma seedAdmin_one_admin:
  assumes "distinct (map email (users d))" and "seedAdmin now d = Inr d1"
  shows "length (filter (\<lambda>u. email u = adminEmail) (users d1)) = 1"
proof (cases "getUserByEmail d adminEmail")
  case None
  then have none: "\<forall>x\<in>set (users d). \<not> email x = adminEmail"
    by (simp add: getUserByEmail_def index_get_def find_None_iff)
  have "email (adminRecord now) = adminEmail" by (simp add: adminRecord_def)
  with none have "filter (\<lambda>u. email u = adminEmail) (os_put id_user (adminRecord now) (users d))
        = [adminRecord now]"
    by (intro filter_os_put_none) auto
  then show ?thesis using assms(2) none by (auto simp: seedAdmin_cases split: if_splits)
next
  case (Some e)
  then have "filter (\<lambda>u. email u = adminEmail) (users d) = [e]"
    using assms(1) by (intro find_unique_filter) (simp_all add: getUserByEmail_def index_get_def)
  moreover have "d1 = d" using Some assms(2) by (simp add: seedAdmin_def)
  ultimately show ?thesis by simp
qed

subsection \<open>Sorting\<close>

lemma mset_insert_by: "mset (insert_by cmp a bs) = add_mset a (mset bs)"
  by (induction bs) auto

lemma mset_array_sort: "mset (array_sort cmp xs) = mset xs"
  by (induction xs) (simp_all add: array_sort_def mset_insert_by)

lemma set_array_sort: "set (array_sort cmp xs) = set xs"
  using mset_array_sort [of cmp xs] by (metis set_mset_mset)

lemma array_sort_Cons: "array_sort cmp (x # xs) = insert_by cmp x (array_sort cmp xs)"
  by (simp add: array_sort_def)

lemma comes_after_compareFn:
  "parse (timestamp a) = Some ta \<Longrightarrow> parse (timestamp b) = Some tb \<Longrightarrow>
   comes_after (compareFn parse) a b \<longleftrightarrow> ta < tb"
  by (simp add: comes_after_def compareFn_def)

lemma not_older_iff:
  "parse (timestamp a) = Some ta \<Longrightarrow> parse (timestamp b) = Some tb \<Longrightarrow>
   not_older parse a b \<longleftrightarrow> tb \<le> ta"
  by (simp add: not_older_def)

lemma not_older_trans:
  "not_older parse a b \<Longrightarrow> not_older parse b c \<Longrightarrow> not_older parse a c"
  by (auto simp: not_older_def split: option.splits)

lemma sorted_insert_by:
  assumes "parse (timestamp a) \<noteq> None" and "\<forall>b\<in>set bs. parse (timestamp b) \<noteq> None"
    and "sorted_wrt (not_older parse) bs"
  shows "sorted_wrt (not_older parse) (insert_by (compareFn parse) a bs)"
  using assms
proof (induction bs)
  case Nil
  then show ?case by simp
next
  case (Cons b bs)
  obtain ta tb where ta: "parse (timestamp a) = Some ta" and tb: "parse (timestamp b) = Some tb"
    using Cons.prems(1,2) by auto
  show ?case
  proof (cases "ta < tb")
    case True
    then have ba: "not_older parse b a" using ta tb by (simp add: not_older_iff)
    have "set (insert_by (compareFn parse) a bs) = insert a (set bs)"
      using mset_insert_by [of "compareFn parse" a bs] by (metis set_mset_mset set_mset_add_mset_insert)
    moreover have "sorted_wrt (not_older parse) (insert_by (compareFn parse) a bs)"
      using Cons by simp
    ultimately show ?thesis using True ta tb ba Cons.prems(3)
      by (simp add: comes_after_compareFn)
  next
    case False
    then have ab: "not_older parse a b" using ta tb by (simp add: not_older_iff)
    have "\<forall>y\<in>set bs. not_older parse a y"
      using ab Cons.prems(3) not_older_trans [of parse a b] by auto
    then show ?thesis using False ta tb ab Cons.prems(3) by (simp add: comes_after_compareFn)
  qed
qed

lemma newest_first_array_sort:
  "\<forall>x\<in>set xs. parse (timestamp x) \<noteq> None \<Longrightarrow> newest_first parse (array_sort (compareFn parse) xs)"
  unfolding newest_first_def
  by (induction xs) (simp_all add: array_sort_Cons sorted_insert_by set_array_sort, simp add: array_sort_def)

lemma find_the_only:
  assumes "s \<in> set xs" and "P s" and "\<forall>x\<in>set xs. P x \<longrightarrow> x = s"
  shows "find P xs = Some s"
proof (cases "find P xs")
  case None
  then show ?thesis using assms(1,2) by (simp add: find_None_iff)
next
  case (Some y)
  then have "y \<in> set xs \<and> P y" by (auto simp: find_Some_iff)
  then have "y = s" using assms(3) by blast
  then show ?thesis using Some by simp
qed

lemma array_sort_two:
  assumes "parse (timestamp s1) = Some t1" and "parse (timestamp s2) = Some t2" and "t1 < t2"
  shows "array_sort (compareFn parse) [s1, s2] = [s2, s1]"
  using assms by (simp add: array_sort_def comes_after_compareFn)

lemma array_sort_two_sorted:
  assumes "parse (timestamp s1) = Some t1" and "parse (timestamp s2) = Some t2" and "t1 < t2"
  shows "array_sort (compareFn parse) [s2, s1] = [s2, s1]"
  using assms by (simp add: array_sort_def comes_after_compareFn)

lemma owner_scans_after_two_puts:
  assumes ok: "scans_ok xs" and none: "\<forall>s\<in>set xs. userId s \<noteq> u"
    and own: "userId s1 = u" "userId s2 = u" and ids: "id_scan s1 \<noteq> id_scan s2"
  shows "index_getAll userId u (os_put id_scan s2 (os_put id_scan s1 xs))
         = (if id_scan s2 < id_scan s1 then [s2, s1] else [s1, s2])"
proof -
  have one: "filter (\<lambda>x. userId x = u) (os_put id_scan s1 xs) = [s1]"
    using none own(1) by (intro filter_os_put_none) auto
  have "sorted_wrt (<) (map id_scan (os_put id_scan s1 xs))"
    using ok by (simp add: scans_ok_def sorted_os_put)
  then have "filter (\<lambda>x. userId x = u) (os_put id_scan s2 (os_put id_scan s1 xs))
        = os_put id_scan s2 (filter (\<lambda>x. userId x = u) (os_put id_scan s1 xs))"
    using own(2) by (intro filter_os_put_in) auto
  then show ?thesis using one ids by (auto simp: index_getAll_def)
qed

section \<open>Claims about the store\<close>

text \<open>
  Claim C1. Two identities with distinct ids and the same email: in a store where no
  record under another id holds that email (the empty store is one), \<^verbatim>\<open>saveUser\<close> of the
  first succeeds, \<^verbatim>\<open>saveUser\<close> of the second is rejected by the unique index on \<^verbatim>\<open>email\<close>,
  and the store, which the rejected put leaves as it was, still holds the first record.
\<close>

theorem saveUser_duplicate_email_rejected:
  assumes "id_user u1 \<noteq> id_user u2" and "email u1 = email u2"
    and "\<forall>x\<in>set (users d). email x = email u1 \<longrightarrow> id_user x = id_user u1"
  shows "\<exists>d1. saveUser u1 d = Inr d1 \<and> saveUser u2 d1 = Inl ConstraintError \<and>
              getUser d1 (id_user u1) = Some u1 \<and> u1 \<in> set (getAllUsers d1)"
proof -
  let ?d1 = "d\<lparr>users := os_put id_user u1 (users d)\<rparr>"
  have "\<not> unique_violation id_user email u1 (users d)"
    using assms(3) by (auto simp: unique_violation_iff)
  then have first: "saveUser u1 d = Inr ?d1" by (simp add: saveUser_def)
  have mem: "u1 \<in> set (users ?d1)" by (simp add: os_put_mem)
  then have "unique_violation id_user email u2 (users ?d1)"
    using assms(1,2) unfolding unique_violation_iff by blast
  then have second: "saveUser u2 ?d1 = Inl ConstraintError" by (simp add: saveUser_def)
  have "getUser ?d1 (id_user u1) = Some u1"
    by (simp add: getUser_def os_get_def find_os_put_same)
  with first second mem show ?thesis by (simp add: getAllUsers_def)
qed

theorem saveUser_duplicate_email_rejected_witness:
  "id_user (sample_user ''u1'' ''a@x.com'' USER) \<noteq> id_user (sample_user ''u2'' ''a@x.com'' USER) \<and>
   email (sample_user ''u1'' ''a@x.com'' USER) = email (sample_user ''u2'' ''a@x.com'' USER) \<and>
   saveUser (sample_user ''u1'' ''a@x.com'' USER) empty_db
     = Inr \<lparr>users = [sample_user ''u1'' ''a@x.com'' USER], scans = []\<rparr> \<and>
   saveUser (sample_user ''u2'' ''a@x.com'' USER)
       \<lparr>users = [sample_user ''u1'' ''a@x.com'' USER], scans = []\<rparr>
     = Inl ConstraintError \<and>
   getUser \<lparr>users = [sample_user ''u1'' ''a@x.com'' USER], scans = []\<rparr> ''u1''
     = Some (sample_user ''u1'' ''a@x.com'' USER)"
  using saveUser_duplicate_email_rejected
    [of "sample_user ''u1'' ''a@x.com'' USER" "sample_user ''u2'' ''a@x.com'' USER" empty_db]
  by (simp add: empty_db_def saveUser_def unique_violation_def sample_user_def)

text \<open>
  Claim C5. \<^verbatim>\<open>deleteScan\<close> succeeds for every id; when no scan has the id it leaves the
  store as it was; and deleting the same id again changes nothing more.
\<close>

theorem deleteScan_absent_ok:
  "(\<exists>d'. deleteScan k d = Inr d') \<and>
   ((\<forall>s\<in>set (scans d). id_scan s \<noteq> k) \<longrightarrow> deleteScan k d = Inr d) \<and>
   (\<forall>d'. deleteScan k d = Inr d' \<longrightarrow> deleteScan k d' = Inr d')"
  by (auto simp: deleteScan_def os_delete_def filter_id_conv)

theorem deleteScan_absent_ok_witness:
  "id_scan (sample_scan ''s1'' ''u1'' ''T1'') \<noteq> ''s9'' \<and>
   deleteScan ''s9'' \<lparr>users = [], scans = [sample_scan ''s1'' ''u1'' ''T1'']\<rparr>
     = Inr \<lparr>users = [], scans = [sample_scan ''s1'' ''u1'' ''T1'']\<rparr>"
  using deleteScan_absent_ok [of "''s9''" "\<lparr>users = [], scans = [sample_scan ''s1'' ''u1'' ''T1'']\<rparr>"]
  by (simp add: sample_scan_def)

text \<open>
  Claim C3. From every store, \<^verbatim>\<open>seedAdmin\<close> succeeds and a second call leaves the store
  as the first call left it, as does any further number of calls; and when the starting
  store is well formed (one record per key and per email), the list of all identities
  then holds exactly one record with the email \<^verbatim>\<open>admin@breedfinder.com\<close>.
\<close>

theorem seedAdmin_idempotent:
  "\<exists>d1. seedAdmin now d = Inr d1 \<and> seedAdmin now' d1 = Inr d1 \<and>
        seedAdmin_calls (now # nows) d = Inr d1 \<and>
        (db_ok d \<longrightarrow> length (filter (\<lambda>u. email u = adminEmail) (getAllUsers d1)) = 1)"
proof -
  obtain d1 where d1: "seedAdmin now d = Inr d1"
    by (cases "\<exists>x\<in>set (users d). email x = adminEmail") (simp_all add: seedAdmin_cases)
  have has: "\<exists>x\<in>set (users d1). email x = adminEmail" using d1 by (rule seedAdmin_has_admin)
  have "seedAdmin now' d1 = Inr d1" using has by (rule seedAdmin_fixed)
  moreover have "seedAdmin_calls (now # nows) d = Inr d1"
    using d1 seedAdmin_calls_fixed [OF has] by simp
  moreover have "db_ok d \<longrightarrow> length (filter (\<lambda>u. email u = adminEmail) (getAllUsers d1)) = 1"
    using seedAdmin_one_admin [OF _ d1] by (simp add: db_ok_def users_ok_def getAllUsers_def)
  ultimately show ?thesis using d1 by blast
qed

theorem seedAdmin_idempotent_witness:
  "db_ok \<lparr>users = [sample_user ''u1'' ''a@x.com'' USER], scans = []\<rparr> \<and>
   seedAdmin ''t1'' \<lparr>users = [sample_user ''u1'' ''a@x.com'' USER], scans = []\<rparr>
     = Inr \<lparr>users = [adminRecord ''t1'', sample_user ''u1'' ''a@x.com'' USER], scans = []\<rparr> \<and>
   seedAdmin ''t2'' \<lparr>users = [adminRecord ''t1'', sample_user ''u1'' ''a@x.com'' USER], scans = []\<rparr>
     = Inr \<lparr>users = [adminRecord ''t1'', sample_user ''u1'' ''a@x.com'' USER], scans = []\<rparr> \<and>
   seedAdmin_calls [''t1'', ''t2'', ''t3'']
       \<lparr>users = [sample_user ''u1'' ''a@x.com'' USER], scans = []\<rparr>
     = Inr \<lparr>users = [adminRecord ''t1'', sample_user ''u1'' ''a@x.com'' USER], scans = []\<rparr> \<and>
   length (filter (\<lambda>u. email u = adminEmail)
     (getAllUsers \<lparr>users = [adminRecord ''t1'', sample_user ''u1'' ''a@x.com'' USER], scans = []\<rparr>)) = 1"
  using seedAdmin_idempotent
    [of "''t1''" "\<lparr>users = [sample_user ''u1'' ''a@x.com'' USER], scans = []\<rparr>" "''t2''"
        "[''t2'', ''t3'']"]
  by (simp add: db_ok_def users_ok_def scans_ok_def seedAdmin_def getUserByEmail_def
      index_get_def saveUser_def unique_violation_def adminRecord_def adminEmail_def
      sample_user_def getAllUsers_def)

text \<open>
  Claim C2. \<^verbatim>\<open>getUserScans\<close> answers exactly the stored scans of the owner, each as often
  as it is stored; when the timestamps of those scans are dates the platform can parse,
  the answer is ordered newest first; and after \<^verbatim>\<open>saveScan\<close> of \<open>s1\<close> and then of \<open>s2\<close>, with
  distinct ids, the same owner and the time of \<open>s2\<close> after that of \<open>s1\<close>, into a well-formed
  store without scans of that owner, the answer is \<open>[s2, s1]\<close>.
\<close>

theorem getUserScans_newest_first:
  "mset (getUserScans parse d uid) = mset (filter (\<lambda>s. userId s = uid) (scans d)) \<and>
   ((\<forall>s\<in>set (scans d). userId s = uid \<longrightarrow> parse (timestamp s) \<noteq> None)
      \<longrightarrow> newest_first parse (getUserScans parse d uid)) \<and>
   (scans_ok (scans d) \<and> (\<forall>s\<in>set (scans d). userId s \<noteq> uid) \<and>
    userId s1 = uid \<and> userId s2 = uid \<and> id_scan s1 \<noteq> id_scan s2 \<and>
    parse (timestamp s1) = Some t1 \<and> parse (timestamp s2) = Some t2 \<and> t1 < t2
      \<longrightarrow> (\<exists>d1 d2. saveScan s1 d = Inr d1 \<and> saveScan s2 d1 = Inr d2 \<and>
                   getUserScans parse d2 uid = [s2, s1]))"
proof (intro conjI impI)
  show "mset (getUserScans parse d uid) = mset (filter (\<lambda>s. userId s = uid) (scans d))"
    by (simp add: getUserScans_def index_getAll_def mset_array_sort)
next
  assume "\<forall>s\<in>set (scans d). userId s = uid \<longrightarrow> parse (timestamp s) \<noteq> None"
  then have "\<forall>x\<in>set (index_getAll userId uid (scans d)). parse (timestamp x) \<noteq> None"
    by (simp add: index_getAll_def)
  then show "newest_first parse (getUserScans parse d uid)"
    unfolding getUserScans_def by (rule newest_first_array_sort)
next
  assume a: "scans_ok (scans d) \<and> (\<forall>s\<in>set (scans d). userId s \<noteq> uid) \<and>
    userId s1 = uid \<and> userId s2 = uid \<and> id_scan s1 \<noteq> id_scan s2 \<and>
    parse (timestamp s1) = Some t1 \<and> parse (timestamp s2) = Some t2 \<and> t1 < t2"
  let ?d1 = "d\<lparr>scans := os_put id_scan s1 (scans d)\<rparr>"
  let ?d2 = "?d1\<lparr>scans := os_put id_scan s2 (scans ?d1)\<rparr>"
  have puts: "saveScan s1 d = Inr ?d1" "saveScan s2 ?d1 = Inr ?d2"
    by (simp_all add: saveScan_def)
  have "index_getAll userId uid (scans ?d2)
        = (if id_scan s2 < id_scan s1 then [s2, s1] else [s1, s2])"
    using a owner_scans_after_two_puts [of "scans d" uid s1 s2] by simp
  then have "getUserScans parse ?d2 uid = [s2, s1]"
    using a array_sort_two [of parse s1 t1 s2 t2] array_sort_two_sorted [of parse s1 t1 s2 t2]
    by (simp add: getUserScans_def)
  with puts show "\<exists>d1 d2. saveScan s1 d = Inr d1 \<and> saveScan s2 d1 = Inr d2 \<and>
                   getUserScans parse d2 uid = [s2, s1]"
    by blast
qed

theorem getUserScans_newest_first_witness:
  "scans_ok (scans \<lparr>users = [], scans = [sample_scan ''s0'' ''u2'' ''2024-01-02T00:00:00.000Z'']\<rparr>) \<and>
   userId (sample_scan ''s0'' ''u2'' ''2024-01-02T00:00:00.000Z'') \<noteq> ''u1'' \<and>
   sample_parse ''2024-01-01T00:00:00.000Z'' = Some 1704067200000 \<and>
   sample_parse ''2024-01-02T00:00:00.000Z'' = Some 1704153600000 \<and>
   saveScan (sample_scan ''s1'' ''u1'' ''2024-01-01T00:00:00.000Z'')
       \<lparr>users = [], scans = [sample_scan ''s0'' ''u2'' ''2024-01-02T00:00:00.000Z'']\<rparr>
     = Inr \<lparr>users = [], scans = [sample_scan ''s0'' ''u2'' ''2024-01-02T00:00:00.000Z'',
                                 sample_scan ''s1'' ''u1'' ''2024-01-01T00:00:00.000Z'']\<rparr> \<and>
   saveScan (sample_scan ''s2'' ''u1'' ''2024-01-02T00:00:00.000Z'')
       \<lparr>users = [], scans = [sample_scan ''s0'' ''u2'' ''2024-01-02T00:00:00.000Z'',
                             sample_scan ''s1'' ''u1'' ''2024-01-01T00:00:00.000Z'']\<rparr>
     = Inr \<lparr>users = [], scans = [sample_scan ''s0'' ''u2'' ''2024-01-02T00:00:00.000Z'',
                                 sample_scan ''s1'' ''u1'' ''2024-01-01T00:00:00.000Z'',
                                 sample_scan ''s2'' ''u1'' ''2024-01-02T00:00:00.000Z'']\<rparr> \<and>
   getUserScans sample_parse
       \<lparr>users = [], scans = [sample_scan ''s0'' ''u2'' ''2024-01-02T00:00:00.000Z'',
                             sample_scan ''s1'' ''u1'' ''2024-01-01T00:00:00.000Z'',
                             sample_scan ''s2'' ''u1'' ''2024-01-02T00:00:00.000Z'']\<rparr> ''u1''
     = [sample_scan ''s2'' ''u1'' ''2024-01-02T00:00:00.000Z'',
        sample_scan ''s1'' ''u1'' ''2024-01-01T00:00:00.000Z''] \<and>
   newest_first sample_parse
     [sample_scan ''s2'' ''u1'' ''2024-01-02T00:00:00.000Z'',
      sample_scan ''s1'' ''u1'' ''2024-01-01T00:00:00.000Z'']"
  using getUserScans_newest_first
    [of sample_parse
        "\<lparr>users = [], scans = [sample_scan ''s0'' ''u2'' ''2024-01-02T00:00:00.000Z'']\<rparr>"
        "''u1''"
        "sample_scan ''s1'' ''u1'' ''2024-01-01T00:00:00.000Z''"
        "sample_scan ''s2'' ''u1'' ''2024-01-02T00:00:00.000Z''"
        1704067200000 1704153600000]
  by (simp add: scans_ok_def saveScan_def sample_scan_def sample_parse_def newest_first_def
      not_older_def)

text \<open>
  Claim C4. A scan stored by \<^verbatim>\<open>saveScan\<close> into a well-formed store is read back equal, in
  every field, the optional health analysis and purchased flag included, when it is
  looked up by its id in the answer of \<^verbatim>\<open>getUserScans\<close> for its owner or of
  \<^verbatim>\<open>getAllScans\<close>.
\<close>

theorem saveScan_round_trip:
  assumes "scans_ok (scans d)"
  shows "\<exists>d'. saveScan s d = Inr d' \<and>
     find (\<lambda>x. id_scan x = id_scan s) (getUserScans parse d' (userId s)) = Some s \<and>
     find (\<lambda>x. id_scan x = id_scan s) (getAllScans parse d') = Some s"
proof -
  let ?d' = "d\<lparr>scans := os_put id_scan s (scans d)\<rparr>"
  have stored: "set (scans ?d') = insert s {x \<in> set (scans d). id_scan x \<noteq> id_scan s}"
    using assms by (simp add: scans_ok_def set_os_put)
  have "find (\<lambda>x. id_scan x = id_scan s) (getUserScans parse ?d' (userId s)) = Some s"
    using stored
    by (intro find_the_only) (auto simp: getUserScans_def set_array_sort index_getAll_def)
  moreover have "find (\<lambda>x. id_scan x = id_scan s) (getAllScans parse ?d') = Some s"
    using stored by (intro find_the_only) (auto simp: getAllScans_def set_array_sort)
  ultimately show ?thesis by (simp add: saveScan_def)
qed

theorem saveScan_round_trip_witness:
  "scans_ok (scans \<lparr>users = [], scans = [sample_scan ''s0'' ''u2'' ''2024-01-02T00:00:00.000Z'']\<rparr>) \<and>
   find (\<lambda>x. id_scan x = ''s1'')
     (getUserScans sample_parse
        \<lparr>users = [],
         scans = [sample_scan ''s0'' ''u2'' ''2024-01-02T00:00:00.000Z'',
                  (sample_scan ''s1'' ''u1'' ''2024-01-01T00:00:00.000Z'')
                    \<lparr>healthAnalysis := Some sample_analysis, isPurchased := Some True\<rparr>]\<rparr>
        ''u1'')
     = Some ((sample_scan ''s1'' ''u1'' ''2024-01-01T00:00:00.000Z'')
               \<lparr>healthAnalysis := Some sample_analysis, isPurchased := Some True\<rparr>)"
  using saveScan_round_trip
    [of "\<lparr>users = [], scans = [sample_scan ''s0'' ''u2'' ''2024-01-02T00:00:00.000Z'']\<rparr>"
        "(sample_scan ''s1'' ''u1'' ''2024-01-01T00:00:00.000Z'')
           \<lparr>healthAnalysis := Some sample_analysis, isPurchased := Some True\<rparr>"
        sample_parse]
  by (simp add: scans_ok_def saveScan_def sample_scan_def)

section \<open>Claims about the session and view controller\<close>

lemma seedAdmin_succeeds: "\<exists>d1. seedAdmin now d = Inr d1"
  by (cases "\<exists>x\<in>set (users d). email x = adminEmail") (simp_all add: seedAdmin_cases)

lemma session_ok_handleLogin: "session_ok (handleLogin u w)"
  by (simp add: session_ok_def handleLogin_def)

lemma session_ok_initApp: "session_ok (initApp now (boot d p))"
  by (auto simp: session_ok_def initApp_def boot_def roleView_def
      split: sum.splits option.splits)

lemma session_ok_Login_handleSubmit:
  "session_ok w \<Longrightarrow> session_ok (fst (Login_handleSubmit e p w))"
  by (auto simp: Login_handleSubmit_def lookupAndLogin_def session_ok_handleLogin
      split: option.splits)

lemma session_ok_Signup_handleSubmit:
  "session_ok w \<Longrightarrow> session_ok (fst (Signup_handleSubmit k now nm e p w))"
  by (auto simp: Signup_handleSubmit_def Let_def session_ok_handleLogin
      split: option.splits sum.splits)

lemma session_ok_db_update: "session_ok (w\<lparr>db := d\<rparr>) = session_ok w"
  by (simp add: session_ok_def)

lemma session_ok_fire_event:
  "session_ok w \<Longrightarrow> fire_event ev w = Some w' \<Longrightarrow> session_ok w'"
proof (cases ev)
  case NavDashboard
  assume "session_ok w" "fire_event ev w = Some w'"
  then show ?thesis using NavDashboard
    by (auto simp: session_ok_def setView_def split: option.splits)
next
  case (LoginSubmit e p)
  assume "session_ok w" "fire_event ev w = Some w'"
  then show ?thesis using LoginSubmit session_ok_Login_handleSubmit [of w e p]
    by (auto simp: if_shown_def split: if_splits)
next
  case (SignupSubmit k now nm e p)
  assume "session_ok w" "fire_event ev w = Some w'"
  then show ?thesis using SignupSubmit session_ok_Signup_handleSubmit [of w k now nm e p]
    by (auto simp: if_shown_def split: if_splits)
qed (auto simp: session_ok_def setView_def handleLogout_def if_shown_def split: if_splits)

lemma reachable_session_ok: "reachable w \<Longrightarrow> session_ok w"
proof (induction rule: reachable.induct)
  case (booting d p)
  show ?case by (simp add: session_ok_def boot_def)
next
  case (initialised now d p)
  show ?case by (rule session_ok_initApp)
next
  case (step w ev w')
  then show ?case by (auto simp: fire_def split: if_splits intro: session_ok_fire_event)
qed

lemma render_Dashboard:
  assumes "session_ok w" and "render w = Dashboard u"
  shows "currentUser w = u \<and> u \<noteq> None"
proof -
  from assms(2) have rc: "renderContent w = Dashboard u"
    by (simp add: render_def split: if_splits)
  show ?thesis
  proof (cases "currentUser w")
    case None
    with assms(1) have "view w \<noteq> dashboard" and "view w \<noteq> admin"
      by (auto simp: session_ok_def)
    with rc None show ?thesis by (cases "view w") (simp_all add: renderContent_def)
  next
    case (Some a)
    have "u = Some a"
      using rc by (cases "view w") (simp_all add: renderContent_def Some split: if_splits)
    then show ?thesis using Some by simp
  qed
qed

lemma render_AdminDashboard:
  assumes "render w = AdminDashboard u"
  shows "currentUser w = Some u \<and> role u = ADMIN"
proof -
  from assms have rc: "renderContent w = AdminDashboard u"
    by (simp add: render_def split: if_splits)
  show ?thesis
  proof (cases "currentUser w")
    case None
    with rc show ?thesis by (cases "view w") (simp_all add: renderContent_def)
  next
    case (Some a)
    have "u = a \<and> role a = ADMIN"
      using rc by (cases "view w") (simp_all add: renderContent_def Some split: if_splits)
    then show ?thesis using Some by simp
  qed
qed

text \<open>Every transition keeps the store well formed.\<close>

lemma db_ok_seedAdmin: "db_ok d \<Longrightarrow> seedAdmin now d = Inr d' \<Longrightarrow> db_ok d'"
  by (auto simp: seedAdmin_def split: option.splits intro: db_ok_saveUser)

lemma db_ok_initApp: "db_ok d \<Longrightarrow> db_ok (db (initApp now (boot d p)))"
  by (auto simp: initApp_def boot_def split: sum.splits option.splits intro: db_ok_seedAdmin)

lemma db_handleLogin: "db (handleLogin u w) = db w"
  by (simp add: handleLogin_def)

lemma db_Login_handleSubmit:
  "db (fst (Login_handleSubmit e p w)) = db w"
  by (simp add: Login_handleSubmit_def lookupAndLogin_def db_handleLogin split: option.splits)

lemma db_ok_Signup_handleSubmit:
  "db_ok (db w) \<Longrightarrow> db_ok (db (fst (Signup_handleSubmit k now nm e p w)))"
  by (auto simp: Signup_handleSubmit_def Let_def db_handleLogin
      split: option.splits sum.splits intro: db_ok_saveUser)

lemma db_ok_fire_event:
  "db_ok (db w) \<Longrightarrow> fire_event ev w = Some w' \<Longrightarrow> db_ok (db w')"
proof (cases ev)
  case (SignupSubmit k now nm e p)
  assume "db_ok (db w)" "fire_event ev w = Some w'"
  then show ?thesis using SignupSubmit db_ok_Signup_handleSubmit [of w k now nm e p]
    by (auto simp: if_shown_def split: if_splits)
next
  case (DashboardSaveScan scan)
  assume "db_ok (db w)" "fire_event ev w = Some w'"
  then show ?thesis using DashboardSaveScan db_ok_saveScan [of "db w" scan]
    by (auto simp: if_shown_def saveScanToDB_def split: if_splits sum.splits)
next
  case (DashboardDeleteScan k)
  assume "db_ok (db w)" "fire_event ev w = Some w'"
  then show ?thesis using DashboardDeleteScan db_ok_deleteScan [of "db w" k]
    by (auto simp: if_shown_def split: if_splits sum.splits)
qed (auto simp: setView_def handleLogout_def if_shown_def db_Login_handleSubmit
      split: if_splits option.splits)

lemma db_ok_fire: "db_ok (db w) \<Longrightarrow> fire ev w = Some w' \<Longrightarrow> db_ok (db w')"
  by (auto simp: fire_def split: if_splits intro: db_ok_fire_event)

text \<open>
  Claim C6, as the code has it. \<^verbatim>\<open>initApp\<close> seeds the administrator and ends the
  initialisation. When the pointer slot holds a non-empty id that \<^verbatim>\<open>getUser\<close> resolves to
  an identity, that identity becomes the current one and the screen is \<^verbatim>\<open>admin\<close> for an
  administrator and \<^verbatim>\<open>dashboard\<close> otherwise. When the slot is absent, holds the empty
  string, or holds an id that resolves to nothing, the screen stays \<^verbatim>\<open>landing\<close> and there
  is no current identity.
\<close>

theorem initApp_restores_session:
  "seedAdmin now d0 = Inr (db (initApp now (boot d0 p))) \<and>
   \<not> isInitializing (initApp now (boot d0 p)) \<and>
   (\<forall>k u. p = Some k \<and> k \<noteq> [] \<and> getUser (db (initApp now (boot d0 p))) k = Some u
      \<longrightarrow> currentUser (initApp now (boot d0 p)) = Some u \<and>
          view (initApp now (boot d0 p)) = (if role u = ADMIN then admin else dashboard)) \<and>
   (p = None \<or> p = Some [] \<or> (\<exists>k. p = Some k \<and> getUser (db (initApp now (boot d0 p))) k = None)
      \<longrightarrow> currentUser (initApp now (boot d0 p)) = None \<and>
          view (initApp now (boot d0 p)) = landing)"
proof -
  obtain d where d: "seedAdmin now d0 = Inr d" using seedAdmin_succeeds by blast
  then show ?thesis
    by (auto simp: initApp_def boot_def roleView_def split: option.splits)
qed

theorem initApp_restores_session_witness:
  "getUser (db (initApp ''t'' (boot \<lparr>users = [sample_user ''u1'' ''a@x.com'' USER], scans = []\<rparr>
       (Some ''u1'')))) ''u1'' = Some (sample_user ''u1'' ''a@x.com'' USER) \<and>
   currentUser (initApp ''t'' (boot \<lparr>users = [sample_user ''u1'' ''a@x.com'' USER], scans = []\<rparr>
       (Some ''u1''))) = Some (sample_user ''u1'' ''a@x.com'' USER) \<and>
   view (initApp ''t'' (boot \<lparr>users = [sample_user ''u1'' ''a@x.com'' USER], scans = []\<rparr>
       (Some ''u1''))) = dashboard \<and>
   getUser (db (initApp ''t'' (boot \<lparr>users = [sample_user ''u1'' ''a@x.com'' USER], scans = []\<rparr>
       (Some ''u7'')))) ''u7'' = None \<and>
   currentUser (initApp ''t'' (boot \<lparr>users = [sample_user ''u1'' ''a@x.com'' USER], scans = []\<rparr>
       (Some ''u7''))) = None \<and>
   view (initApp ''t'' (boot \<lparr>users = [sample_user ''u1'' ''a@x.com'' USER], scans = []\<rparr>
       (Some ''u7''))) = landing"
  using initApp_restores_session
      [of "''t''" "\<lparr>users = [sample_user ''u1'' ''a@x.com'' USER], scans = []\<rparr>" "Some ''u1''"]
    initApp_restores_session
      [of "''t''" "\<lparr>users = [sample_user ''u1'' ''a@x.com'' USER], scans = []\<rparr>" "Some ''u7''"]
  by (simp add: initApp_def boot_def seedAdmin_def getUserByEmail_def index_get_def saveUser_def
      unique_violation_def adminRecord_def adminEmail_def sample_user_def getUser_def os_get_def
      roleView_def)

text \<open>
  Claim C6 as stated fails for the empty id: the slot holds \<^verbatim>\<open>""\<close>, \<^verbatim>\<open>getUser\<close> resolves it
  to a stored identity, and yet no identity is restored and the screen stays \<^verbatim>\<open>landing\<close>.
\<close>

theorem initApp_empty_id_counterexample:
  "animal_id_uid (boot \<lparr>users = [sample_user [] ''a@x.com'' USER], scans = []\<rparr> (Some [])) = Some [] \<and>
   getUser (db (initApp ''t'' (boot \<lparr>users = [sample_user [] ''a@x.com'' USER], scans = []\<rparr> (Some []))))
     [] = Some (sample_user [] ''a@x.com'' USER) \<and>
   currentUser (initApp ''t'' (boot \<lparr>users = [sample_user [] ''a@x.com'' USER], scans = []\<rparr> (Some [])))
     = None \<and>
   view (initApp ''t'' (boot \<lparr>users = [sample_user [] ''a@x.com'' USER], scans = []\<rparr> (Some [])))
     = landing"
  by (simp add: initApp_def boot_def seedAdmin_def getUserByEmail_def index_get_def saveUser_def
      unique_violation_def adminRecord_def adminEmail_def sample_user_def getUser_def os_get_def)

text \<open>
  Claim C7. In every reachable state, a rendered dashboard has the current identity, and
  there is one; the admin dashboard is rendered only for a current identity with the
  administrator role; and with the \<^verbatim>\<open>admin\<close> screen selected and a current identity of
  another role, the standard dashboard is rendered for that identity.
\<close>

theorem screen_preconditions:
  "(reachable w \<longrightarrow> (\<forall>u. render w = Dashboard u \<longrightarrow> u \<noteq> None \<and> u = currentUser w)) \<and>
   (\<forall>u. render w = AdminDashboard u \<longrightarrow> currentUser w = Some u \<and> role u = ADMIN) \<and>
   (\<forall>u. \<not> isInitializing w \<and> view w = admin \<and> currentUser w = Some u \<and> role u \<noteq> ADMIN
        \<longrightarrow> render w = Dashboard (Some u))"
proof (intro conjI impI allI)
  fix u
  assume r: "reachable w" and d: "render w = Dashboard u"
  have ok: "session_ok w" using r by (rule reachable_session_ok)
  show "u \<noteq> None" using render_Dashboard [OF ok d] by simp
  show "u = currentUser w" using render_Dashboard [OF ok d] by simp
next
  fix u
  assume a: "render w = AdminDashboard u"
  show "currentUser w = Some u" using render_AdminDashboard [OF a] by simp
  show "role u = ADMIN" using render_AdminDashboard [OF a] by simp
next
  fix u
  assume "\<not> isInitializing w \<and> view w = admin \<and> currentUser w = Some u \<and> role u \<noteq> ADMIN"
  then show "render w = Dashboard (Some u)"
    by (simp add: render_def renderContent_def)
qed

theorem screen_preconditions_witness:
  "reachable (initApp ''t'' (boot \<lparr>users = [sample_user ''u1'' ''a@x.com'' USER], scans = []\<rparr>
       (Some ''u1''))) \<and>
   render (initApp ''t'' (boot \<lparr>users = [sample_user ''u1'' ''a@x.com'' USER], scans = []\<rparr>
       (Some ''u1''))) = Dashboard (Some (sample_user ''u1'' ''a@x.com'' USER)) \<and>
   render \<lparr>db = empty_db, animal_id_uid = Some ''admin-1'',
           currentUser = Some (adminRecord ''t''), view = admin, isInitializing = False\<rparr>
     = AdminDashboard (adminRecord ''t'') \<and>
   role (adminRecord ''t'') = ADMIN \<and>
   role (sample_user ''u1'' ''a@x.com'' USER) \<noteq> ADMIN \<and>
   render \<lparr>db = empty_db, animal_id_uid = Some ''u1'',
           currentUser = Some (sample_user ''u1'' ''a@x.com'' USER), view = admin,
           isInitializing = False\<rparr>
     = Dashboard (Some (sample_user ''u1'' ''a@x.com'' USER))"
  using screen_preconditions
      [of "initApp ''t'' (boot \<lparr>users = [sample_user ''u1'' ''a@x.com'' USER], scans = []\<rparr>
             (Some ''u1''))"]
    screen_preconditions
      [of "\<lparr>db = empty_db, animal_id_uid = Some ''u1'',
            currentUser = Some (sample_user ''u1'' ''a@x.com'' USER), view = admin,
            isInitializing = False\<rparr>"]
    reachable.initialised
      [of "''t''" "\<lparr>users = [sample_user ''u1'' ''a@x.com'' USER], scans = []\<rparr>" "Some ''u1''"]
  by (simp add: initApp_def boot_def seedAdmin_def getUserByEmail_def index_get_def saveUser_def
      unique_violation_def adminRecord_def adminEmail_def sample_user_def getUser_def os_get_def
      roleView_def render_def renderContent_def)

text \<open>
  Claim C9. For a stored identity whose email is not the administrator's, in a store with
  one record per email, submitting the login form with that email logs that identity in
  without an error message, whatever the password: any two passwords give the same
  outcome.
\<close>

theorem login_ignores_password:
  assumes "users_ok (users (db w))" and "u \<in> set (users (db w))"
    and "email u \<noteq> ''admin@breedfinder.com''"
  shows "Login_handleSubmit (email u) p1 w = (handleLogin u w, []) \<and>
         Login_handleSubmit (email u) p2 w = Login_handleSubmit (email u) p1 w"
proof -
  have "getUserByEmail (db w) (email u) = Some u"
    using assms(1,2) by (simp add: getUserByEmail_def index_get_def users_ok_def find_member_unique)
  then have "Login_handleSubmit (email u) p w = (handleLogin u w, [])" for p
    using assms(3) by (simp add: Login_handleSubmit_def lookupAndLogin_def)
  then show ?thesis by simp
qed

theorem login_ignores_password_witness:
  "users_ok [adminRecord ''t'', sample_user ''u1'' ''a@x.com'' USER] \<and>
   email (sample_user ''u1'' ''a@x.com'' USER) \<noteq> ''admin@breedfinder.com'' \<and>
   Login_handleSubmit ''a@x.com'' ''secret''
       \<lparr>db = \<lparr>users = [adminRecord ''t'', sample_user ''u1'' ''a@x.com'' USER], scans = []\<rparr>,
        animal_id_uid = None, currentUser = None, view = login, isInitializing = False\<rparr>
     = (\<lparr>db = \<lparr>users = [adminRecord ''t'', sample_user ''u1'' ''a@x.com'' USER], scans = []\<rparr>,
         animal_id_uid = Some ''u1'', currentUser = Some (sample_user ''u1'' ''a@x.com'' USER),
         view = dashboard, isInitializing = False\<rparr>, []) \<and>
   Login_handleSubmit ''a@x.com'' ''wrong''
       \<lparr>db = \<lparr>users = [adminRecord ''t'', sample_user ''u1'' ''a@x.com'' USER], scans = []\<rparr>,
        animal_id_uid = None, currentUser = None, view = login, isInitializing = False\<rparr>
     = (\<lparr>db = \<lparr>users = [adminRecord ''t'', sample_user ''u1'' ''a@x.com'' USER], scans = []\<rparr>,
         animal_id_uid = Some ''u1'', currentUser = Some (sample_user ''u1'' ''a@x.com'' USER),
         view = dashboard, isInitializing = False\<rparr>, [])"
  using login_ignores_password
    [of "\<lparr>db = \<lparr>users = [adminRecord ''t'', sample_user ''u1'' ''a@x.com'' USER], scans = []\<rparr>,
          animal_id_uid = None, currentUser = None, view = login, isInitializing = False\<rparr>"
        "sample_user ''u1'' ''a@x.com'' USER" "''secret''" "''wrong''"]
  by (simp add: users_ok_def adminRecord_def adminEmail_def sample_user_def handleLogin_def
      roleView_def)

section \<open>Claims about the speech synthesis\<close>

lemma audioData_in_allPayloads:
  "audioData response = Some s \<Longrightarrow> s \<in> set (allPayloads response)"
  by (auto simp: audioData_def allPayloads_def candidatePayloads_def partPayloads_def first_of_def
      split: option.splits list.splits)

lemma audioData_firstPartPayloads:
  "audioData response = (case firstPartPayloads response of [] \<Rightarrow> None | s # rest \<Rightarrow> Some s)"
proof (cases "candidates response")
  case None
  then show ?thesis by (simp add: audioData_def firstPartPayloads_def first_of_def)
next
  case (Some cs)
  show ?thesis
  proof (cases cs)
    case Nil
    then show ?thesis using Some by (simp add: audioData_def firstPartPayloads_def first_of_def)
  next
    case (Cons c rest)
    note cands = Some Cons
    show ?thesis
    proof (cases "content c")
      case None
      then show ?thesis using cands
        by (simp add: audioData_def firstPartPayloads_def first_of_def)
    next
      case (Some ct)
      note ct = this
      show ?thesis
      proof (cases "parts ct")
        case None
        then show ?thesis using cands ct
          by (simp add: audioData_def firstPartPayloads_def first_of_def)
      next
        case (Some ps)
        note ps = this
        show ?thesis
        proof (cases ps)
          case Nil
          then show ?thesis using cands ct ps
            by (simp add: audioData_def firstPartPayloads_def first_of_def)
        next
          case (Cons p others)
          then show ?thesis using cands ct ps
            by (cases "inlineData p")
               (simp_all add: audioData_def firstPartPayloads_def first_of_def partPayloads_def
                  split: option.splits)
        qed
      qed
    qed
  qed
qed

lemma length_firstPartPayloads: "length (firstPartPayloads response) \<le> 1"
  by (simp add: firstPartPayloads_def partPayloads_def split: option.splits list.splits)

text \<open>
  Claim C8, as the code has it. For every text, a rejection of the call to the hosted
  model is passed on; when the call answers, the operation answers a string and raises
  nothing of its own. It reads one part only, the first part of the first candidate,
  which carries at most one payload: the string is that payload when there is one and
  empty when there is none, whatever the other parts carry; in particular it is empty
  when no part of any candidate carries a payload.
\<close>

theorem generateBreedAudio_first_part:
  "(api (speechRequest txt) = Inl err \<longrightarrow> generateBreedAudio api txt = Inl err) \<and>
   (api (speechRequest txt) = Inr response \<longrightarrow>
      (\<exists>payload. generateBreedAudio api txt = Inr payload) \<and>
      length (firstPartPayloads response) \<le> 1 \<and>
      (firstPartPayloads response = [] \<longrightarrow> generateBreedAudio api txt = Inr []) \<and>
      (\<forall>s. firstPartPayloads response = [s] \<longrightarrow> generateBreedAudio api txt = Inr s) \<and>
      (allPayloads response = [] \<longrightarrow> generateBreedAudio api txt = Inr []))"
proof (intro conjI impI allI)
  assume "api (speechRequest txt) = Inl err"
  then show "generateBreedAudio api txt = Inl err" by (simp add: generateBreedAudio_def)
next
  assume r: "api (speechRequest txt) = Inr response"
  show "\<exists>payload. generateBreedAudio api txt = Inr payload"
    using r by (simp add: generateBreedAudio_def)
  show "length (firstPartPayloads response) \<le> 1" by (rule length_firstPartPayloads)
  show "generateBreedAudio api txt = Inr []" if "firstPartPayloads response = []"
    using r that by (simp add: generateBreedAudio_def audioData_firstPartPayloads)
  show "generateBreedAudio api txt = Inr s" if "firstPartPayloads response = [s]" for s
    using r that by (simp add: generateBreedAudio_def audioData_firstPartPayloads)
  show "generateBreedAudio api txt = Inr []" if "allPayloads response = []"
  proof (cases "audioData response")
    case None
    then show ?thesis using r by (simp add: generateBreedAudio_def)
  next
    case (Some s)
    then have "s \<in> set (allPayloads response)" by (rule audioData_in_allPayloads)
    then show ?thesis using that by simp
  qed
qed

theorem generateBreedAudio_first_part_witness:
  "firstPartPayloads
     (sample_response [\<lparr>inlineData = Some \<lparr>data = Some ''UklGRg==''\<rparr>, text_part = None\<rparr>])
     = [''UklGRg==''] \<and>
   generateBreedAudio
     (\<lambda>q. Inr (sample_response
        [\<lparr>inlineData = Some \<lparr>data = Some ''UklGRg==''\<rparr>, text_part = None\<rparr>]))
     ''A beagle'' = Inr ''UklGRg=='' \<and>
   allPayloads (sample_response [\<lparr>inlineData = None, text_part = Some ''no audio''\<rparr>]) = [] \<and>
   firstPartPayloads (sample_response [\<lparr>inlineData = None, text_part = Some ''no audio''\<rparr>])
     = [] \<and>
   generateBreedAudio
     (\<lambda>q. Inr (sample_response [\<lparr>inlineData = None, text_part = Some ''no audio''\<rparr>]))
     ''A beagle'' = Inr [] \<and>
   generateBreedAudio (\<lambda>q. Inl (Error ''network'')) ''A beagle'' = Inl (Error ''network'')"
  using generateBreedAudio_first_part
      [of "\<lambda>q. Inr (sample_response
             [\<lparr>inlineData = Some \<lparr>data = Some ''UklGRg==''\<rparr>, text_part = None\<rparr>])"
          "''A beagle''" "Error ''network''"
          "sample_response [\<lparr>inlineData = Some \<lparr>data = Some ''UklGRg==''\<rparr>, text_part = None\<rparr>]"]
    generateBreedAudio_first_part
      [of "\<lambda>q. Inr (sample_response [\<lparr>inlineData = None, text_part = Some ''no audio''\<rparr>])"
          "''A beagle''" "Error ''network''"
          "sample_response [\<lparr>inlineData = None, text_part = Some ''no audio''\<rparr>]"]
    generateBreedAudio_first_part
      [of "\<lambda>q. Inl (Error ''network'')" "''A beagle''" "Error ''network''"
          "sample_response []"]
  by (simp add: sample_response_def firstPartPayloads_def allPayloads_def candidatePayloads_def
      partPayloads_def)

text \<open>
  Claim C8 as stated fails when the payload is not in the first part: the response
  carries an audio data part, the second one, and the operation answers the empty string,
  not that payload.
\<close>

theorem generateBreedAudio_second_part_counterexample:
  "allPayloads
     (sample_response
        [\<lparr>inlineData = None, text_part = Some ''intro''\<rparr>,
         \<lparr>inlineData = Some \<lparr>data = Some ''UklGRg==''\<rparr>, text_part = None\<rparr>])
     = [''UklGRg==''] \<and>
   generateBreedAudio
     (\<lambda>q. Inr (sample_response
        [\<lparr>inlineData = None, text_part = Some ''intro''\<rparr>,
         \<lparr>inlineData = Some \<lparr>data = Some ''UklGRg==''\<rparr>, text_part = None\<rparr>]))
     ''A beagle'' = Inr []"
  by (simp add: sample_response_def allPayloads_def candidatePayloads_def partPayloads_def
      generateBreedAudio_def audioData_def first_of_def)

section \<open>Claims about the dashboard\<close>

lemma saveScanToDB_stored:
  "os_get id_scan (id_scan r) (scans (saveScanToDB r d)) = Some r"
  by (simp add: saveScanToDB_def saveScan_def os_get_def find_os_put_same)

text \<open>
  Claim C10. With an image selected, a current scan and a health analysis answered by the
  model, \<^verbatim>\<open>handleHealthCheck\<close> makes the current scan, and the record stored under its id,
  the old one with \<^verbatim>\<open>healthAnalysis\<close> set to the analysis and each of the other fifteen
  fields as before; with a current scan, \<^verbatim>\<open>handlePurchase\<close> does the same with
  \<^verbatim>\<open>isPurchased\<close> set to true and each of the other fifteen fields as before.
\<close>

theorem scan_mutations_frame:
  "(selectedImage s = Some img \<and> img \<noteq> [] \<and> currentResult s = Some cur \<and>
    detect img (animalType cur) = Inr analysis
    \<longrightarrow> (\<exists>upd. currentResult (fst (handleHealthCheck detect (s, d))) = Some upd \<and>
          os_get id_scan (id_scan cur) (scans (snd (handleHealthCheck detect (s, d)))) = Some upd \<and>
          healthAnalysis upd = Some analysis \<and>
          id_scan upd = id_scan cur \<and> userId upd = userId cur \<and> imageUrl upd = imageUrl cur \<and>
          animalType upd = animalType cur \<and> breedName upd = breedName cur \<and>
          confidence upd = confidence cur \<and> description upd = description cur \<and>
          similarBreeds upd = similarBreeds cur \<and> timestamp upd = timestamp cur \<and>
          price upd = price cur \<and> uses upd = uses cur \<and>
          lifeExpectancy upd = lifeExpectancy cur \<and> dietRoutine upd = dietRoutine cur \<and>
          exercisePlan upd = exercisePlan cur \<and> isPurchased upd = isPurchased cur)) \<and>
   (currentResult s = Some cur
    \<longrightarrow> (\<exists>upd. currentResult (fst (handlePurchase (s, d))) = Some upd \<and>
          os_get id_scan (id_scan cur) (scans (snd (handlePurchase (s, d)))) = Some upd \<and>
          isPurchased upd = Some True \<and>
          id_scan upd = id_scan cur \<and> userId upd = userId cur \<and> imageUrl upd = imageUrl cur \<and>
          animalType upd = animalType cur \<and> breedName upd = breedName cur \<and>
          confidence upd = confidence cur \<and> description upd = description cur \<and>
          similarBreeds upd = similarBreeds cur \<and> timestamp upd = timestamp cur \<and>
          healthAnalysis upd = healthAnalysis cur \<and>
          price upd = price cur \<and> uses upd = uses cur \<and>
          lifeExpectancy upd = lifeExpectancy cur \<and> dietRoutine upd = dietRoutine cur \<and>
          exercisePlan upd = exercisePlan cur))"
proof (intro conjI impI)
  assume a: "selectedImage s = Some img \<and> img \<noteq> [] \<and> currentResult s = Some cur \<and>
    detect img (animalType cur) = Inr analysis"
  let ?upd = "cur\<lparr>healthAnalysis := Some analysis\<rparr>"
  have res: "handleHealthCheck detect (s, d) =
      (s\<lparr>healthAnalysis_shown := Some analysis, currentResult := Some ?upd,
         isAnalyzingHealth := False\<rparr>, saveScanToDB ?upd d)"
    using a by (simp add: handleHealthCheck_def Let_def)
  have "os_get id_scan (id_scan cur) (scans (saveScanToDB ?upd d)) = Some ?upd"
    using saveScanToDB_stored [of ?upd d] by simp
  then show "\<exists>upd. currentResult (fst (handleHealthCheck detect (s, d))) = Some upd \<and>
          os_get id_scan (id_scan cur) (scans (snd (handleHealthCheck detect (s, d)))) = Some upd \<and>
          healthAnalysis upd = Some analysis \<and>
          id_scan upd = id_scan cur \<and> userId upd = userId cur \<and> imageUrl upd = imageUrl cur \<and>
          animalType upd = animalType cur \<and> breedName upd = breedName cur \<and>
          confidence upd = confidence cur \<and> description upd = description cur \<and>
          similarBreeds upd = similarBreeds cur \<and> timestamp upd = timestamp cur \<and>
          price upd = price cur \<and> uses upd = uses cur \<and>
          lifeExpectancy upd = lifeExpectancy cur \<and> dietRoutine upd = dietRoutine cur \<and>
          exercisePlan upd = exercisePlan cur \<and> isPurchased upd = isPurchased cur"
    by (intro exI [of _ ?upd]) (simp add: res)
next
  assume a: "currentResult s = Some cur"
  let ?upd = "cur\<lparr>isPurchased := Some True\<rparr>"
  have res: "handlePurchase (s, d) =
      (s\<lparr>shoppingCart := ?upd # shoppingCart s, currentResult := Some ?upd\<rparr>,
       saveScanToDB ?upd d)"
    using a by (simp add: handlePurchase_def Let_def)
  have "os_get id_scan (id_scan cur) (scans (saveScanToDB ?upd d)) = Some ?upd"
    using saveScanToDB_stored [of ?upd d] by simp
  then show "\<exists>upd. currentResult (fst (handlePurchase (s, d))) = Some upd \<and>
          os_get id_scan (id_scan cur) (scans (snd (handlePurchase (s, d)))) = Some upd \<and>
          isPurchased upd = Some True \<and>
          id_scan upd = id_scan cur \<and> userId upd = userId cur \<and> imageUrl upd = imageUrl cur \<and>
          animalType upd = animalType cur \<and> breedName upd = breedName cur \<and>
          confidence upd = confidence cur \<and> description upd = description cur \<and>
          similarBreeds upd = similarBreeds cur \<and> timestamp upd = timestamp cur \<and>
          healthAnalysis upd = healthAnalysis cur \<and>
          price upd = price cur \<and> uses upd = uses cur \<and>
          lifeExpectancy upd = lifeExpectancy cur \<and> dietRoutine upd = dietRoutine cur \<and>
          exercisePlan upd = exercisePlan cur"
    by (intro exI [of _ ?upd]) (simp add: res)
qed

theorem scan_mutations_frame_witness:
  "currentResult (fst (handleHealthCheck (\<lambda>i a. Inr sample_analysis)
      (\<lparr>selectedImage = Some ''data:image/jpeg;base64,AAAA'',
        currentResult = Some (sample_scan ''s1'' ''u1'' ''2024-01-01T00:00:00.000Z''),
        healthAnalysis_shown = None, errorMsg = None, isAnalyzingHealth = False,
        shoppingCart = []\<rparr>,
       \<lparr>users = [], scans = [sample_scan ''s1'' ''u1'' ''2024-01-01T00:00:00.000Z'']\<rparr>)))
     = Some ((sample_scan ''s1'' ''u1'' ''2024-01-01T00:00:00.000Z'')
               \<lparr>healthAnalysis := Some sample_analysis\<rparr>) \<and>
   scans (snd (handleHealthCheck (\<lambda>i a. Inr sample_analysis)
      (\<lparr>selectedImage = Some ''data:image/jpeg;base64,AAAA'',
        currentResult = Some (sample_scan ''s1'' ''u1'' ''2024-01-01T00:00:00.000Z''),
        healthAnalysis_shown = None, errorMsg = None, isAnalyzingHealth = False,
        shoppingCart = []\<rparr>,
       \<lparr>users = [], scans = [sample_scan ''s1'' ''u1'' ''2024-01-01T00:00:00.000Z'']\<rparr>)))
     = [(sample_scan ''s1'' ''u1'' ''2024-01-01T00:00:00.000Z'')
          \<lparr>healthAnalysis := Some sample_analysis\<rparr>] \<and>
   scans (snd (handlePurchase
      (\<lparr>selectedImage = Some ''data:image/jpeg;base64,AAAA'',
        currentResult = Some (sample_scan ''s1'' ''u1'' ''2024-01-01T00:00:00.000Z''),
        healthAnalysis_shown = None, errorMsg = None, isAnalyzingHealth = False,
        shoppingCart = []\<rparr>,
       \<lparr>users = [], scans = [sample_scan ''s1'' ''u1'' ''2024-01-01T00:00:00.000Z'']\<rparr>)))
     = [(sample_scan ''s1'' ''u1'' ''2024-01-01T00:00:00.000Z'')\<lparr>isPurchased := Some True\<rparr>]"
  using scan_mutations_frame
    [of "\<lparr>selectedImage = Some ''data:image/jpeg;base64,AAAA'',
          currentResult = Some (sample_scan ''s1'' ''u1'' ''2024-01-01T00:00:00.000Z''),
          healthAnalysis_shown = None, errorMsg = None, isAnalyzingHealth = False,
          shoppingCart = []\<rparr>"
        "''data:image/jpeg;base64,AAAA''"
        "sample_scan ''s1'' ''u1'' ''2024-01-01T00:00:00.000Z''"
        "\<lambda>i a. Inr sample_analysis" sample_analysis
        "\<lparr>users = [], scans = [sample_scan ''s1'' ''u1'' ''2024-01-01T00:00:00.000Z'']\<rparr>"]
  by (simp add: handleHealthCheck_def handlePurchase_def Let_def saveScanToDB_def saveScan_def
      sample_scan_def)

end
